theory Spec2Isabelle
  imports Complex_Main "HOL-Library.Product_Lexorder" "HOL-Library.Multiset"
begin

section \<open>Python runtime: exceptions\<close>

text \<open>
  The exceptions the modelled code can raise. \<open>ValueError\<close> carries the message of the
  \<^verbatim>\<open>raise\<close> statement; \<open>OverflowError\<close> is what \<^verbatim>\<open>datetime.date\<close> arithmetic raises
  when a date leaves the years 1..9999; \<open>AttributeError\<close> is a method call on an object
  of a class that does not have the method.
\<close>

datatype pyerr =
    ValueError string
  | OverflowError
  | ZeroDivisionError
  | AttributeError

section \<open>time_of_day.py\<close>

subsection \<open>class Time\<close>

text \<open>
  A \<^verbatim>\<open>Time\<close> object holds \<^verbatim>\<open>hour\<close>, \<^verbatim>\<open>minute\<close>, \<^verbatim>\<open>second\<close> and
  \<^verbatim>\<open>_time = datetime.time(hour, minute, second)\<close>. No method assigns to a field after
  construction, so \<^verbatim>\<open>_time\<close> is the triple of the three fields; \<^verbatim>\<open>datetime.time\<close>
  values compare as these triples, lexicographically.
\<close>

record Time =
  hour :: int
  minute :: int
  second :: int

definition Time_init :: "int \<Rightarrow> int \<Rightarrow> int \<Rightarrow> pyerr + Time" where
  "Time_init h m s =
     (if \<not> (0 \<le> h \<and> h \<le> 23) then Inl (ValueError ''Hour must be between 0 and 23'')
      else if \<not> (0 \<le> m \<and> m \<le> 59) then Inl (ValueError ''Minute must be between 0 and 59'')
      else if \<not> (0 \<le> s \<and> s \<le> 59) then Inl (ValueError ''Second must be between 0 and 59'')
      else Inr \<lparr>hour = h, minute = m, second = s\<rparr>)"

text \<open>The objects the constructor can return.\<close>

definition valid_Time :: "Time \<Rightarrow> bool" where
  "valid_Time t \<longleftrightarrow> Time_init (hour t) (minute t) (second t) = Inr t"

definition time_obj :: "Time \<Rightarrow> int \<times> int \<times> int" where
  "time_obj t = (hour t, minute t, second t)"

definition to_minutes :: "Time \<Rightarrow> int" where
  "to_minutes t = hour t * 60 + minute t"

definition add_minutes :: "Time \<Rightarrow> int \<Rightarrow> pyerr + Time" where
  "add_minutes t minutes =
     (let total_minutes = to_minutes t + minutes;
          total_minutes = total_minutes mod (24 * 60);
          new_hour = total_minutes div 60;
          new_minute = total_minutes mod 60
      in Time_init new_hour new_minute (second t))"

definition difference_in_minutes :: "Time \<Rightarrow> Time \<Rightarrow> int" where
  "difference_in_minutes t other = to_minutes t - to_minutes other"

definition is_before :: "Time \<Rightarrow> Time \<Rightarrow> bool" where
  "is_before t other \<longleftrightarrow> time_obj t < time_obj other"

definition is_after :: "Time \<Rightarrow> Time \<Rightarrow> bool" where
  "is_after t other \<longleftrightarrow> time_obj t > time_obj other"

definition Time_eq :: "Time \<Rightarrow> Time \<Rightarrow> bool" where
  "Time_eq t other \<longleftrightarrow> time_obj t = time_obj other"

subsection \<open>class TimeRange\<close>

record TimeRange =
  start_time :: Time
  end_time :: Time
  duration_minutes :: int

definition TimeRange_init :: "Time \<Rightarrow> Time \<Rightarrow> pyerr + TimeRange" where
  "TimeRange_init s e =
     (if is_before e s then Inl (ValueError ''End time must be after start time'')
      else Inr \<lparr>start_time = s, end_time = e,
                duration_minutes = difference_in_minutes e s\<rparr>)"

definition overlaps_with :: "TimeRange \<Rightarrow> TimeRange \<Rightarrow> bool" where
  "overlaps_with r other =
     (if is_before (end_time r) (start_time other) \<or> Time_eq (end_time r) (start_time other)
      then False
      else if is_before (end_time other) (start_time r)
              \<or> Time_eq (end_time other) (start_time r)
      then False
      else True)"

definition get_overlap_duration :: "TimeRange \<Rightarrow> TimeRange \<Rightarrow> int" where
  "get_overlap_duration r other =
     (if \<not> overlaps_with r other then 0
      else
        let overlap_start =
              (if is_after (start_time r) (start_time other) then start_time r
               else start_time other);
            overlap_end =
              (if is_before (end_time r) (end_time other) then end_time r
               else end_time other)
        in difference_in_minutes overlap_end overlap_start)"

text \<open>Literals such as \<^verbatim>\<open>Time(9, 0)\<close> and \<^verbatim>\<open>TimeRange(Time(9, 0), Time(21, 0))\<close>.\<close>

definition hm :: "int \<Rightarrow> int \<Rightarrow> Time" where
  "hm h m = \<lparr>hour = h, minute = m, second = 0\<rparr>"

definition range_hm :: "int \<Rightarrow> int \<Rightarrow> int \<Rightarrow> int \<Rightarrow> TimeRange" where
  "range_hm h1 m1 h2 m2 =
     \<lparr>start_time = hm h1 m1, end_time = hm h2 m2,
      duration_minutes = (h2 * 60 + m2) - (h1 * 60 + m1)\<rparr>"

section \<open>Python runtime: \<^verbatim>\<open>datetime.date\<close>\<close>

text \<open>
  The standard library's proleptic Gregorian dates, as far as the code uses them:
  construction (which validates), comparison (as the triple year, month, day), and
  \<^verbatim>\<open>date + timedelta(days=n)\<close>, which moves n days along the calendar and raises
  \<^verbatim>\<open>OverflowError\<close> when the result leaves the years 1..9999.
\<close>

type_synonym pydate = "int \<times> int \<times> int"

definition is_leap :: "int \<Rightarrow> bool" where
  "is_leap y \<longleftrightarrow> y mod 4 = 0 \<and> (y mod 100 \<noteq> 0 \<or> y mod 400 = 0)"

definition days_in_month :: "int \<Rightarrow> int \<Rightarrow> int" where
  "days_in_month y m =
     (if m = 2 then (if is_leap y then 29 else 28)
      else if m = 4 \<or> m = 6 \<or> m = 9 \<or> m = 11 then 30
      else 31)"

definition calendar_date :: "pydate \<Rightarrow> bool" where
  "calendar_date dt \<longleftrightarrow>
     (case dt of (y, m, d) \<Rightarrow> 1 \<le> m \<and> m \<le> 12 \<and> 1 \<le> d \<and> d \<le> days_in_month y m)"

definition valid_date :: "pydate \<Rightarrow> bool" where
  "valid_date dt \<longleftrightarrow> 1 \<le> fst dt \<and> fst dt \<le> 9999 \<and> calendar_date dt"

definition date_init :: "int \<Rightarrow> int \<Rightarrow> int \<Rightarrow> pyerr + pydate" where
  "date_init y m d =
     (if \<not> (1 \<le> y \<and> y \<le> 9999) then Inl (ValueError ''year is out of range'')
      else if \<not> (1 \<le> m \<and> m \<le> 12) then Inl (ValueError ''month must be in 1..12'')
      else if \<not> (1 \<le> d \<and> d \<le> days_in_month y m)
      then Inl (ValueError ''day is out of range for month'')
      else Inr (y, m, d))"

fun date_succ :: "pydate \<Rightarrow> pydate" where
  "date_succ (y, m, d) =
     (if d < days_in_month y m then (y, m, d + 1)
      else if m < 12 then (y, m + 1, 1)
      else (y + 1, 1, 1))"

fun date_pred :: "pydate \<Rightarrow> pydate" where
  "date_pred (y, m, d) =
     (if 1 < d then (y, m, d - 1)
      else if 1 < m then (y, m - 1, days_in_month y (m - 1))
      else (y - 1, 12, 31))"

definition date_shift :: "pydate \<Rightarrow> int \<Rightarrow> pydate" where
  "date_shift dt n = (if 0 \<le> n then (date_succ ^^ nat n) dt else (date_pred ^^ nat (- n)) dt)"

definition date_plus_days :: "pydate \<Rightarrow> int \<Rightarrow> pyerr + pydate" where
  "date_plus_days dt n =
     (let r = date_shift dt n
      in if 1 \<le> fst r \<and> fst r \<le> 9999 then Inr r else Inl OverflowError)"

section \<open>time_periods.py\<close>

subsection \<open>class Day\<close>

text \<open>
  A \<^verbatim>\<open>Day\<close> holds \<^verbatim>\<open>year\<close>, \<^verbatim>\<open>month\<close>, \<^verbatim>\<open>day\<close> and
  \<^verbatim>\<open>date = datetime.date(year, month, day)\<close>; no method assigns to a field, so the
  \<^verbatim>\<open>date\<close> attribute is the triple of the other three (\<open>Day_date\<close>). Equality,
  order and hash of a \<^verbatim>\<open>Day\<close> are those of its date.
\<close>

record Day =
  year :: int
  month :: int
  day :: int

definition Day_date :: "Day \<Rightarrow> pydate" where
  "Day_date d = (year d, month d, Day.day d)"

definition Day_init :: "int \<Rightarrow> int \<Rightarrow> int \<Rightarrow> pyerr + Day" where
  "Day_init y m d =
     (case date_init y m d of
        Inl e \<Rightarrow> Inl e
      | Inr _ \<Rightarrow> Inr \<lparr>year = y, month = m, day = d\<rparr>)"

definition from_date :: "pydate \<Rightarrow> pyerr + Day" where
  "from_date date_obj = (case date_obj of (y, m, d) \<Rightarrow> Day_init y m d)"

definition Day_eq :: "Day \<Rightarrow> Day \<Rightarrow> bool" where
  "Day_eq d other \<longleftrightarrow> Day_date d = Day_date other"

definition Day_lt :: "Day \<Rightarrow> Day \<Rightarrow> bool" where
  "Day_lt d other \<longleftrightarrow> Day_date d < Day_date other"

definition Day_ge :: "Day \<Rightarrow> Day \<Rightarrow> bool" where
  "Day_ge d other \<longleftrightarrow> Day_date d \<ge> Day_date other"

section \<open>events.py\<close>

datatype EventPriority = LOW | MEDIUM | HIGH | URGENT

datatype EventStatus = SCHEDULED | IN_PROGRESS | COMPLETED | CANCELLED | RESCHEDULED

text \<open>
  Python lists are mutable objects held by reference. A list of strings is a cell of the
  heap's \<open>list_objs\<close>, named by its index; an event is a cell of \<open>event_objs\<close>, named by
  its index. Events define no \<^verbatim>\<open>__eq__\<close>, so two events are equal exactly when they are
  the same object, that is, the same address.
\<close>

type_synonym addr = nat

subsection \<open>The classes\<close>

record Event =
  title :: string
  day :: Day
  time_range :: TimeRange
  description :: string
  priority :: EventPriority
  status :: EventStatus
  tags :: addr
  "notes" :: string

record Appointment = Event +
  location :: string
  attendees :: addr
  reminder_minutes :: int

record DoctorAppointment = Appointment +
  doctor_name :: string
  specialty :: string
  insurance_required :: bool
  medical_notes :: string

record Chore = Event +
  category :: string
  is_recurring :: bool
  recurrence_days :: int
  estimated_effort :: string

record WorkMeeting = Event +
  meeting_link :: string
  agenda :: addr
  organizer :: string
  attendees :: addr
  is_virtual :: bool
  room :: string

record GymTime = Event +
  workout_type :: string
  gym_location :: string
  trainer :: string
  exercises :: addr
  target_calories :: int

record PersonalEvent = Event +
  category :: string
  participants :: addr
  cost :: real
  location :: string

datatype AnyEvent =
    AppointmentObj Appointment
  | DoctorAppointmentObj DoctorAppointment
  | ChoreObj Chore
  | WorkMeetingObj WorkMeeting
  | GymTimeObj GymTime
  | PersonalEventObj PersonalEvent

record heap =
  event_objs :: "AnyEvent list"
  list_objs :: "string list list"

definition new_list :: "heap \<Rightarrow> string list \<Rightarrow> addr \<times> heap" where
  "new_list h xs = (length (list_objs h), h\<lparr>list_objs := list_objs h @ [xs]\<rparr>)"

definition list_copy :: "heap \<Rightarrow> addr \<Rightarrow> addr \<times> heap" where
  "list_copy h a = new_list h (list_objs h ! a)"

definition new_event :: "heap \<Rightarrow> AnyEvent \<Rightarrow> addr \<times> heap" where
  "new_event h obj = (length (event_objs h), h\<lparr>event_objs := event_objs h @ [obj]\<rparr>)"

text \<open>The base-class part of an event object, and the method each class overrides.\<close>

fun as_Event :: "AnyEvent \<Rightarrow> Event" where
  "as_Event (AppointmentObj e) = Event.truncate e"
| "as_Event (DoctorAppointmentObj e) = Event.truncate e"
| "as_Event (ChoreObj e) = Event.truncate e"
| "as_Event (WorkMeetingObj e) = Event.truncate e"
| "as_Event (GymTimeObj e) = Event.truncate e"
| "as_Event (PersonalEventObj e) = Event.truncate e"

fun get_event_type :: "AnyEvent \<Rightarrow> string" where
  "get_event_type (AppointmentObj _) = ''Appointment''"
| "get_event_type (DoctorAppointmentObj _) = ''Doctor Appointment''"
| "get_event_type (ChoreObj _) = ''Chore''"
| "get_event_type (WorkMeetingObj _) = ''Work Meeting''"
| "get_event_type (GymTimeObj _) = ''Gym Time''"
| "get_event_type (PersonalEventObj _) = ''Personal Event''"

subsection \<open>class Event\<close>

text \<open>
  Keyword arguments: \<open>None\<close> is an argument the caller did not pass. (For the list
  arguments \<^verbatim>\<open>tags\<close> and \<^verbatim>\<open>attendees\<close> the code treats a passed \<^verbatim>\<open>None\<close> as not passed.)
\<close>

record Event_kwargs =
  description_kw :: "string option"
  priority_kw :: "EventPriority option"
  tags_kw :: "addr option"
  notes_kw :: "string option"

record Appointment_kwargs = Event_kwargs +
  location_kw :: "string option"
  attendees_kw :: "addr option"
  reminder_minutes_kw :: "int option"

definition dflt :: "'a \<Rightarrow> 'a option \<Rightarrow> 'a" where
  "dflt d x = (case x of None \<Rightarrow> d | Some v \<Rightarrow> v)"

definition list_or_new :: "heap \<Rightarrow> addr option \<Rightarrow> addr \<times> heap" where
  "list_or_new h x = (case x of Some a \<Rightarrow> (a, h) | None \<Rightarrow> new_list h [])"

definition Event_init ::
  "heap \<Rightarrow> string \<Rightarrow> Day \<Rightarrow> TimeRange \<Rightarrow> 'k Event_kwargs_scheme \<Rightarrow> Event \<times> heap" where
  "Event_init h title' day' time_range' kw =
     (let (tags', h') = list_or_new h (tags_kw kw)
      in (\<lparr>title = title', day = day', time_range = time_range',
           description = dflt [] (description_kw kw),
           priority = dflt MEDIUM (priority_kw kw),
           status = SCHEDULED,
           tags = tags',
           notes = dflt [] (notes_kw kw)\<rparr>, h'))"

definition get_duration_minutes :: "'a Event_scheme \<Rightarrow> int" where
  "get_duration_minutes e = duration_minutes (time_range e)"

definition conflicts_with :: "'a Event_scheme \<Rightarrow> 'b Event_scheme \<Rightarrow> bool" where
  "conflicts_with e other =
     (if \<not> Day_eq (day e) (day other) then False
      else overlaps_with (time_range e) (time_range other))"

subsection \<open>class Appointment\<close>

definition Appointment_init ::
  "heap \<Rightarrow> string \<Rightarrow> Day \<Rightarrow> TimeRange \<Rightarrow> 'k Appointment_kwargs_scheme
     \<Rightarrow> Appointment \<times> heap" where
  "Appointment_init h title' day' time_range' kw =
     (let (base, h1) = Event_init h title' day' time_range' kw;
          (attendees', h2) = list_or_new h1 (attendees_kw kw)
      in (Event.extend base
            (Appointment.fields (dflt [] (location_kw kw)) attendees'
               (dflt 15 (reminder_minutes_kw kw))), h2))"

subsection \<open>class DoctorAppointment\<close>

definition DoctorAppointment_init ::
  "heap \<Rightarrow> string \<Rightarrow> Day \<Rightarrow> TimeRange \<Rightarrow> string option \<Rightarrow> string option \<Rightarrow> bool option
     \<Rightarrow> string option \<Rightarrow> Appointment_kwargs \<Rightarrow> DoctorAppointment \<times> heap" where
  "DoctorAppointment_init h title' day' time_range' doctor_name' specialty'
       insurance_required' medical_notes' kwargs =
     (let (base, h') = Appointment_init h title' day' time_range' kwargs;
          self = Appointment.extend base
                   (DoctorAppointment.fields (dflt [] doctor_name') (dflt [] specialty')
                      (dflt True insurance_required') (dflt [] medical_notes'));
          self = (if priority_kw kwargs = None then self\<lparr>priority := HIGH\<rparr> else self)
      in (self, h'))"

subsection \<open>class Chore\<close>

definition Chore_init ::
  "heap \<Rightarrow> string \<Rightarrow> Day \<Rightarrow> TimeRange \<Rightarrow> string option \<Rightarrow> bool option \<Rightarrow> int option
     \<Rightarrow> string option \<Rightarrow> Event_kwargs \<Rightarrow> Chore \<times> heap" where
  "Chore_init h title' day' time_range' category' is_recurring' recurrence_days'
       estimated_effort' kwargs =
     (let (base, h') = Event_init h title' day' time_range' kwargs
      in (Event.extend base
            (Chore.fields (dflt ''General'' category') (dflt False is_recurring')
               (dflt 7 recurrence_days') (dflt ''Medium'' estimated_effort')), h'))"

text \<open>
  \<^verbatim>\<open>get_next_occurrence\<close> is a method of \<^verbatim>\<open>Chore\<close> only. \<open>self\<close> is the address of the
  receiver; the result is the address of the new object (or \<^verbatim>\<open>None\<close>), with the heap
  after the call.
\<close>

definition get_next_occurrence :: "heap \<Rightarrow> addr \<Rightarrow> (pyerr + addr option) \<times> heap" where
  "get_next_occurrence h self =
     (case event_objs h ! self of
        ChoreObj c \<Rightarrow>
          if \<not> is_recurring c then (Inr None, h)
          else
            (case date_plus_days (Day_date (day c)) (recurrence_days c) of
               Inl e \<Rightarrow> (Inl e, h)
             | Inr next_date \<Rightarrow>
                (case from_date next_date of
                   Inl e \<Rightarrow> (Inl e, h)
                 | Inr next_day \<Rightarrow>
                    let (tags', h1) = list_copy h (tags c);
                        (obj, h2) = Chore_init h1 (title c) next_day (time_range c)
                            (Some (Chore.category c)) (Some (is_recurring c))
                            (Some (recurrence_days c)) (Some (estimated_effort c))
                            \<lparr>description_kw = Some (description c),
                             priority_kw = Some (priority c),
                             tags_kw = Some tags',
                             notes_kw = Some (notes c)\<rparr>;
                        (a, h3) = new_event h2 (ChoreObj obj)
                    in (Inr (Some a), h3)))
      | _ \<Rightarrow> (Inl AttributeError, h))"

section \<open>schedule.py\<close>

subsection \<open>class Schedule\<close>

text \<open>
  \<open>events\<close> is the list of the registered event objects (their addresses), and
  \<open>events_by_day\<close> is the \<^verbatim>\<open>defaultdict(list)\<close> named \<^verbatim>\<open>_events_by_day\<close>. Its keys are
  \<^verbatim>\<open>Day\<close> objects, hashed and compared by their date, which for the record \<open>Day\<close> is
  equality. The schedule methods read the event objects from the heap and do not change it.
\<close>

record Schedule =
  name :: string
  events :: "addr list"
  events_by_day :: "Day \<rightharpoonup> addr list"

definition Schedule_init :: "string \<Rightarrow> Schedule" where
  "Schedule_init name' = \<lparr>name = name', events = [], events_by_day = Map.empty\<rparr>"

definition obj :: "heap \<Rightarrow> addr \<Rightarrow> Event" where
  "obj h a = as_Event (event_objs h ! a)"

text \<open>
  \<^verbatim>\<open>self._events_by_day[day]\<close>: reading a key the \<^verbatim>\<open>defaultdict\<close> does not have stores an
  empty list under it and returns that list.
\<close>

definition day_bucket :: "Schedule \<Rightarrow> Day \<Rightarrow> addr list \<times> Schedule" where
  "day_bucket s d =
     (case events_by_day s d of
        Some xs \<Rightarrow> (xs, s)
      | None \<Rightarrow> ([], s\<lparr>events_by_day := (events_by_day s)(d \<mapsto> [])\<rparr>))"

definition start_key :: "heap \<Rightarrow> addr \<Rightarrow> int \<times> int \<times> int" where
  "start_key h a = time_obj (start_time (time_range (obj h a)))"

definition get_events_on_day :: "heap \<Rightarrow> Schedule \<Rightarrow> Day \<Rightarrow> addr list \<times> Schedule" where
  "get_events_on_day h s d =
     (let (events', s') = day_bucket s d
      in (sort_key (start_key h) events', s'))"

definition get_conflicting_events :: "heap \<Rightarrow> Schedule \<Rightarrow> addr \<Rightarrow> addr list \<times> Schedule" where
  "get_conflicting_events h s event =
     (let (on_day, s') = get_events_on_day h s (day (obj h event))
      in (filter (\<lambda>existing_event. existing_event \<noteq> event
                    \<and> conflicts_with (obj h event) (obj h existing_event)) on_day, s'))"

definition add_event :: "heap \<Rightarrow> Schedule \<Rightarrow> addr \<Rightarrow> bool \<Rightarrow> bool \<times> Schedule" where
  "add_event h s event check_conflicts =
     (let (conflicts, s1) =
            (if check_conflicts then get_conflicting_events h s event else ([], s))
      in if check_conflicts \<and> conflicts \<noteq> [] then (False, s1)
         else
           let s2 = s1\<lparr>events := events s1 @ [event]\<rparr>;
               (b, s3) = day_bucket s2 (day (obj h event))
           in (True, s3\<lparr>events_by_day :=
                           (events_by_day s3)(day (obj h event) \<mapsto> b @ [event])\<rparr>))"

definition remove_event :: "heap \<Rightarrow> Schedule \<Rightarrow> addr \<Rightarrow> (pyerr + bool) \<times> Schedule" where
  "remove_event h s event =
     (if event \<in> set (events s) then
        let s1 = s\<lparr>events := remove1 event (events s)\<rparr>;
            (b, s2) = day_bucket s1 (day (obj h event))
        in if event \<in> set b
           then (Inr True, s2\<lparr>events_by_day :=
                                 (events_by_day s2)(day (obj h event) \<mapsto> remove1 event b)\<rparr>)
           else (Inl (ValueError ''list.remove(x): x not in list''), s2)
      else (Inr False, s))"

definition get_events_by_type :: "heap \<Rightarrow> Schedule \<Rightarrow> string \<Rightarrow> addr list" where
  "get_events_by_type h s event_type =
     filter (\<lambda>event. get_event_type (event_objs h ! event) = event_type) (events s)"

definition get_events_by_status :: "heap \<Rightarrow> Schedule \<Rightarrow> EventStatus \<Rightarrow> addr list" where
  "get_events_by_status h s status' = filter (\<lambda>event. status (obj h event) = status') (events s)"

text \<open>
  \<^verbatim>\<open>xs[:limit]\<close>: a negative limit counts from the end. \<^verbatim>\<open>Day.today()\<close> reads the clock;
  its value is the parameter \<open>today\<close>.
\<close>

definition slice_to :: "'a list \<Rightarrow> int \<Rightarrow> 'a list" where
  "slice_to xs limit =
     (if 0 \<le> limit then take (nat limit) xs else take (length xs - nat (- limit)) xs)"

definition get_upcoming_events ::
  "heap \<Rightarrow> Day \<Rightarrow> Schedule \<Rightarrow> Day option \<Rightarrow> int option \<Rightarrow> addr list" where
  "get_upcoming_events h today s from_day limit =
     (let from_day = (case from_day of None \<Rightarrow> today | Some d \<Rightarrow> d);
          upcoming = filter (\<lambda>event. Day_ge (day (obj h event)) from_day) (events s);
          upcoming = sort_key (\<lambda>e. (Day_date (day (obj h e)), start_key h e)) upcoming
      in case limit of None \<Rightarrow> upcoming | Some n \<Rightarrow> slice_to upcoming n)"

text \<open>
  The cursor loop of \<^verbatim>\<open>get_free_time_slots\<close>; its state is the list \<^verbatim>\<open>free_slots\<close> and
  \<^verbatim>\<open>current_time\<close>. The \<^verbatim>\<open>TimeRange\<close> constructor raises when its end is before its start.
\<close>

fun free_slots_loop ::
  "heap \<Rightarrow> int \<Rightarrow> addr list \<Rightarrow> TimeRange list \<times> Time \<Rightarrow> pyerr + TimeRange list \<times> Time" where
  "free_slots_loop h slot_duration [] st = Inr st"
| "free_slots_loop h slot_duration (event # rest) (free_slots, current_time) =
     (case (if difference_in_minutes (start_time (time_range (obj h event))) current_time
                \<ge> slot_duration
            then (case TimeRange_init current_time (start_time (time_range (obj h event))) of
                    Inl e \<Rightarrow> Inl e
                  | Inr r \<Rightarrow> Inr (free_slots @ [r]))
            else Inr free_slots) of
        Inl e \<Rightarrow> Inl e
      | Inr free_slots \<Rightarrow>
          free_slots_loop h slot_duration rest
            (free_slots,
             if is_after (end_time (time_range (obj h event))) current_time
             then end_time (time_range (obj h event))
             else current_time))"

definition get_free_time_slots ::
  "heap \<Rightarrow> Schedule \<Rightarrow> Day \<Rightarrow> int \<Rightarrow> (pyerr + TimeRange list) \<times> Schedule" where
  "get_free_time_slots h s d slot_duration =
     (let (events', s') = get_events_on_day h s d
      in if events' = [] then
           (case Time_init 9 0 0 of Inl e \<Rightarrow> Inl e | Inr t9 \<Rightarrow>
            case Time_init 21 0 0 of Inl e \<Rightarrow> Inl e | Inr t21 \<Rightarrow>
            case TimeRange_init t9 t21 of Inl e \<Rightarrow> Inl e | Inr r \<Rightarrow> Inr [r], s')
         else
           (case Time_init 9 0 0 of Inl e \<Rightarrow> Inl e | Inr current_time \<Rightarrow>
            case Time_init 21 0 0 of Inl e \<Rightarrow> Inl e | Inr end_of_day \<Rightarrow>
            case free_slots_loop h slot_duration events' ([], current_time) of
              Inl e \<Rightarrow> Inl e
            | Inr (free_slots, current_time) \<Rightarrow>
                if difference_in_minutes end_of_day current_time \<ge> slot_duration
                then (case TimeRange_init current_time end_of_day of
                        Inl e \<Rightarrow> Inl e
                      | Inr r \<Rightarrow> Inr (free_slots @ [r]))
                else Inr free_slots, s'))"

definition get_total_scheduled_time ::
  "heap \<Rightarrow> Schedule \<Rightarrow> Day option \<Rightarrow> int \<times> Schedule" where
  "get_total_scheduled_time h s d =
     (let (events_to_count, s') =
            (case d of Some d' \<Rightarrow> get_events_on_day h s d' | None \<Rightarrow> (events s, s))
      in (sum_list (map (\<lambda>event. get_duration_minutes (obj h event)) events_to_count), s'))"

text \<open>
  The dictionary \<^verbatim>\<open>get_statistics\<close> returns: the last three keys are present only for a
  schedule with events. \<^verbatim>\<open>a / b\<close> on integers raises \<^verbatim>\<open>ZeroDivisionError\<close> when b is 0
  and is otherwise the quotient (as a real number here; the rounding to a float is not
  modelled).
\<close>

record statistics =
  total_events :: int
  upcoming_events :: int
  completed_events :: int
  cancelled_events :: int
  events_by_type :: "(string \<rightharpoonup> int) option"
  total_scheduled_minutes :: "int option"
  average_event_duration :: "real option"

definition true_div :: "int \<Rightarrow> int \<Rightarrow> pyerr + real" where
  "true_div a b = (if b = 0 then Inl ZeroDivisionError else Inr (real_of_int a / real_of_int b))"

definition get_statistics :: "heap \<Rightarrow> Day \<Rightarrow> Schedule \<Rightarrow> pyerr + statistics" where
  "get_statistics h today s =
     (if events s = [] then
        Inr \<lparr>total_events = 0, upcoming_events = 0, completed_events = 0,
             cancelled_events = 0, events_by_type = None, total_scheduled_minutes = None,
             average_event_duration = None\<rparr>
      else
        (case true_div (sum_list (map (\<lambda>e. get_duration_minutes (obj h e)) (events s)))
                (int (length (events s))) of
           Inl e \<Rightarrow> Inl e
         | Inr average \<Rightarrow>
             Inr \<lparr>total_events = int (length (events s)),
                  upcoming_events = int (length (get_upcoming_events h today s None None)),
                  completed_events = int (length (get_events_by_status h s COMPLETED)),
                  cancelled_events = int (length (get_events_by_status h s CANCELLED)),
                  events_by_type =
                    Some (\<lambda>event_type.
                      if event_type \<in> set (map (\<lambda>e. get_event_type (event_objs h ! e)) (events s))
                      then Some (int (length (get_events_by_type h s event_type)))
                      else None),
                  total_scheduled_minutes = Some (fst (get_total_scheduled_time h s None)),
                  average_event_duration = Some average\<rparr>))"

section \<open>Notions used to state the properties\<close>

text \<open>The content of a day's bucket, read without touching the dictionary.\<close>

definition bucket_of :: "Schedule \<Rightarrow> Day \<Rightarrow> addr list" where
  "bucket_of s d = (case events_by_day s d of None \<Rightarrow> [] | Some xs \<Rightarrow> xs)"

text \<open>
  Some event registered in e's day bucket, other than e itself, is on e's day and
  overlaps e's time range.
\<close>

definition conflict_on_day :: "heap \<Rightarrow> Schedule \<Rightarrow> addr \<Rightarrow> bool" where
  "conflict_on_day h s e \<longleftrightarrow>
     (\<exists>x \<in> set (bucket_of s (day (obj h e))).
        x \<noteq> e \<and> Day_eq (day (obj h x)) (day (obj h e))
        \<and> overlaps_with (time_range (obj h e)) (time_range (obj h x)))"

text \<open>
  Some registered event (an element of the event list), other than e itself, is on e's
  day and overlaps e's time range.
\<close>

definition registered_conflict :: "heap \<Rightarrow> Schedule \<Rightarrow> addr \<Rightarrow> bool" where
  "registered_conflict h s e \<longleftrightarrow>
     (\<exists>x \<in> set (events s).
        x \<noteq> e \<and> Day_eq (day (obj h x)) (day (obj h e))
        \<and> overlaps_with (time_range (obj h e)) (time_range (obj h x)))"

text \<open>The schedule with e appended to the event list and to the bucket of e's day.\<close>

definition register :: "heap \<Rightarrow> Schedule \<Rightarrow> addr \<Rightarrow> Schedule" where
  "register h s e =
     s\<lparr>events := events s @ [e],
       events_by_day := (events_by_day s)(day (obj h e) \<mapsto> bucket_of s (day (obj h e)) @ [e])\<rparr>"

text \<open>
  The schedules that \<^verbatim>\<open>add_event\<close> and \<^verbatim>\<open>remove_event\<close> calls build from an empty one
  (\<^verbatim>\<open>get_events_on_day\<close> may be called in between: it can store an empty bucket).
  Between two calls the heap may grow and its objects may change, except for the
  \<^verbatim>\<open>day\<close> field of the events that exist.
\<close>

inductive reachable :: "heap \<Rightarrow> Schedule \<Rightarrow> bool" where
  init: "reachable h (Schedule_init n)"
| add: "reachable h s \<Longrightarrow> e < length (event_objs h) \<Longrightarrow> reachable h (snd (add_event h s e cc))"
| remove: "reachable h s \<Longrightarrow> reachable h (snd (remove_event h s e))"
| query: "reachable h s \<Longrightarrow> reachable h (snd (get_events_on_day h s d))"
| heap: "reachable h s \<Longrightarrow> length (event_objs h) \<le> length (event_objs h')
           \<Longrightarrow> (\<forall>a < length (event_objs h). day (obj h' a) = day (obj h a))
           \<Longrightarrow> reachable h' s"

definition index_inv :: "heap \<Rightarrow> Schedule \<Rightarrow> bool" where
  "index_inv h s \<longleftrightarrow>
     (\<forall>a \<in> set (events s). a < length (event_objs h))
     \<and> (\<forall>d. bucket_of s d = filter (\<lambda>a. day (obj h a) = d) (events s))"

text \<open>
  The free-slot walk as the specification words it: a cursor moves over the day's events
  (their start and end times, in the order of \<^verbatim>\<open>get_events_on_day\<close>); a gap from the
  cursor to an event's start is emitted when it is at least m minutes long; the cursor
  moves to an event's end only when that end is after it; the gap from the cursor to
  21:00 closes the walk when it is at least m minutes long.
\<close>

fun walk_gaps :: "int \<Rightarrow> Time \<Rightarrow> (Time \<times> Time) list \<Rightarrow> (Time \<times> Time) list" where
  "walk_gaps m cursor [] =
     (if to_minutes (hm 21 0) - to_minutes cursor \<ge> m then [(cursor, hm 21 0)] else [])"
| "walk_gaps m cursor ((start, end) # rest) =
     (if to_minutes start - to_minutes cursor \<ge> m then [(cursor, start)] else [])
     @ walk_gaps m (if is_after end cursor then end else cursor) rest"

definition slot_of :: "Time \<times> Time \<Rightarrow> TimeRange" where
  "slot_of p = (case p of (a, b) \<Rightarrow>
     \<lparr>start_time = a, end_time = b, duration_minutes = to_minutes b - to_minutes a\<rparr>)"

definition day_ranges :: "heap \<Rightarrow> Schedule \<Rightarrow> Day \<Rightarrow> (Time \<times> Time) list" where
  "day_ranges h s d =
     map (\<lambda>a. (start_time (time_range (obj h a)), end_time (time_range (obj h a))))
       (fst (get_events_on_day h s d))"

text \<open>The statements of \<^verbatim>\<open>get_free_time_slots\<close> after its loop, applied to the loop's outcome.\<close>

definition finish :: "int \<Rightarrow> pyerr + TimeRange list \<times> Time \<Rightarrow> pyerr + TimeRange list" where
  "finish m r =
     (case r of
        Inl e \<Rightarrow> Inl e
      | Inr (free_slots, current_time) \<Rightarrow>
          if difference_in_minutes (hm 21 0) current_time \<ge> m
          then (case TimeRange_init current_time (hm 21 0) of
                  Inl e \<Rightarrow> Inl e
                | Inr r \<Rightarrow> Inr (free_slots @ [r]))
          else Inr free_slots)"

section \<open>Example objects\<close>

definition ymd :: "int \<Rightarrow> int \<Rightarrow> int \<Rightarrow> Day" where
  "ymd y m d = \<lparr>year = y, month = m, day = d\<rparr>"

definition ex_event :: "Day \<Rightarrow> TimeRange \<Rightarrow> Event" where
  "ex_event d r =
     \<lparr>title = ''Event'', day = d, time_range = r, description = [], priority = MEDIUM,
      status = SCHEDULED, tags = 0, notes = []\<rparr>"

definition ex_chore :: "Day \<Rightarrow> TimeRange \<Rightarrow> int \<Rightarrow> Chore" where
  "ex_chore d r n =
     Event.extend (ex_event d r) (Chore.fields ''Cleaning'' True n ''Low'')"

definition ex_appointment :: "Day \<Rightarrow> TimeRange \<Rightarrow> Appointment" where
  "ex_appointment d r = Event.extend (ex_event d r) (Appointment.fields ''Office'' 1 15)"

definition no_kwargs :: Appointment_kwargs where
  "no_kwargs =
     \<lparr>description_kw = None, priority_kw = None, tags_kw = None, notes_kw = None,
      location_kw = None, attendees_kw = None, reminder_minutes_kw = None\<rparr>"

definition ex_heap :: heap where
  "ex_heap = \<lparr>event_objs = [], list_objs = []\<rparr>"

definition ex_chore_heap :: "Day \<Rightarrow> int \<Rightarrow> heap" where
  "ex_chore_heap d n =
     \<lparr>event_objs = [ChoreObj (ex_chore d (range_hm 9 0 10 0) n)],
      list_objs = [[''home'', ''weekly'']]\<rparr>"

text \<open>
  A heap of six events. Events 0, 1 and 3 are on 2 June 2025 (14:00-15:00, 10:00-11:00
  and 10:00-10:30), event 2 is on 3 June (10:00-11:00), events 4 and 5 are on 4 June
  (10:00:00-10:00:30 and the empty range at 10:00:00).
\<close>

definition ex_events :: heap where
  "ex_events =
     \<lparr>event_objs =
        [AppointmentObj (ex_appointment (ymd 2025 6 2) (range_hm 14 0 15 0)),
         ChoreObj (ex_chore (ymd 2025 6 2) (range_hm 10 0 11 0) 7),
         AppointmentObj (ex_appointment (ymd 2025 6 3) (range_hm 10 0 11 0)),
         ChoreObj (ex_chore (ymd 2025 6 2) (range_hm 10 0 10 30) 7),
         ChoreObj (ex_chore (ymd 2025 6 4)
           \<lparr>start_time = hm 10 0, end_time = \<lparr>hour = 10, minute = 0, second = 30\<rparr>,
            duration_minutes = 0\<rparr> 7),
         ChoreObj (ex_chore (ymd 2025 6 4) (range_hm 10 0 10 0) 7)],
      list_objs = [[], []]\<rparr>"

text \<open>Events 0 and 1 added to an empty schedule.\<close>

definition ex_two :: Schedule where
  "ex_two =
     snd (add_event ex_events
       (snd (add_event ex_events (Schedule_init ''My Schedule'') 0 False)) 1 False)"

text \<open>Then events 2 and 3 added, and event 2 removed.\<close>

definition ex_three :: Schedule where
  "ex_three =
     snd (remove_event ex_events
       (snd (add_event ex_events (snd (add_event ex_events ex_two 2 False)) 3 False)) 2)"

text \<open>Events 4 and 5 added to an empty schedule.\<close>

definition ex_touching :: Schedule where
  "ex_touching =
     snd (add_event ex_events
       (snd (add_event ex_events (Schedule_init ''My Schedule'') 4 False)) 5 False)"

section \<open>Time of day: properties\<close>

lemma Time_init_literal:
  "0 \<le> h \<Longrightarrow> h \<le> 23 \<Longrightarrow> 0 \<le> m \<Longrightarrow> m \<le> 59 \<Longrightarrow> Time_init h m 0 = Inr (hm h m)"
  by (simp add: Time_init_def hm_def)

lemma TimeRange_init_literal:
  "(h1, m1) \<le> (h2, m2) \<Longrightarrow>
   TimeRange_init (hm h1 m1) (hm h2 m2) = Inr (range_hm h1 m1 h2 m2)"
  by (auto simp: TimeRange_init_def is_before_def time_obj_def hm_def range_hm_def
      difference_in_minutes_def to_minutes_def)

lemma not_before_nor_eq: "(\<not> (is_before a b \<or> Time_eq a b)) = is_after a b"
  by (auto simp: is_before_def is_after_def Time_eq_def)

text \<open>
  C2. For every pair of time ranges A and B, \<open>A.overlaps_with(B)\<close> is true exactly when
  A's end is strictly after B's start and B's end is strictly after A's start; two ranges
  that touch at a shared boundary (one's end equals the other's start) do not overlap.
\<close>

theorem overlaps_with_iff:
  "overlaps_with A B = (is_after (end_time A) (start_time B) \<and> is_after (end_time B) (start_time A))
   \<and> (Time_eq (end_time A) (start_time B) \<or> Time_eq (end_time B) (start_time A)
        \<longrightarrow> \<not> overlaps_with A B)"
  by (auto simp: overlaps_with_def is_before_def is_after_def Time_eq_def)

theorem overlaps_with_iff_witness:
  "\<not> overlaps_with (range_hm 9 0 10 0) (range_hm 10 0 11 0)
   \<and> Time_eq (end_time (range_hm 9 0 10 0)) (start_time (range_hm 10 0 11 0))
   \<and> overlaps_with (range_hm 9 0 10 30) (range_hm 10 0 11 0)
   \<and> get_overlap_duration (range_hm 9 0 10 30) (range_hm 10 0 11 0) = 30"
  using overlaps_with_iff [of "range_hm 9 0 10 0" "range_hm 10 0 11 0"]
        overlaps_with_iff [of "range_hm 9 0 10 30" "range_hm 10 0 11 0"]
  by (simp add: range_hm_def hm_def Time_eq_def is_after_def is_before_def time_obj_def
      get_overlap_duration_def difference_in_minutes_def to_minutes_def)

text \<open>
  C10. For every (constructed) Time t and every integer delta, \<open>t.add_minutes(delta)\<close>
  returns a Time whose second is \<open>t.second\<close> unchanged, and whose hour and minute are those
  of \<open>(t.hour * 60 + t.minute + delta) mod 1440\<close> minutes after midnight: the seconds
  take no part in the minute arithmetic and are not reset by it.
\<close>

theorem add_minutes_keeps_second:
  assumes "valid_Time t"
  shows "\<exists>t'. add_minutes t delta = Inr t'
           \<and> second t' = second t
           \<and> to_minutes t' = (hour t * 60 + minute t + delta) mod 1440
           \<and> hour t' = ((hour t * 60 + minute t + delta) mod 1440) div 60
           \<and> minute t' = ((hour t * 60 + minute t + delta) mod 1440) mod 60"
proof -
  let ?n = "(hour t * 60 + minute t + delta) mod 1440"
  have s: "0 \<le> second t \<and> second t \<le> 59"
    using assms by (auto simp: valid_Time_def Time_init_def split: if_splits)
  have n: "0 \<le> ?n \<and> ?n < 1440" by simp
  then have h: "0 \<le> ?n div 60 \<and> ?n div 60 \<le> 23" by auto
  have m: "0 \<le> ?n mod 60 \<and> ?n mod 60 \<le> 59" by auto
  have "add_minutes t delta = Inr \<lparr>hour = ?n div 60, minute = ?n mod 60, second = second t\<rparr>"
    using s h m by (simp add: add_minutes_def to_minutes_def Time_init_def Let_def)
  then show ?thesis by (simp add: to_minutes_def)
qed

theorem add_minutes_keeps_second_witness:
  "valid_Time \<lparr>hour = 23, minute = 50, second = 42\<rparr>
   \<and> add_minutes \<lparr>hour = 23, minute = 50, second = 42\<rparr> 20
       = Inr \<lparr>hour = 0, minute = 10, second = 42\<rparr>"
  using add_minutes_keeps_second [of "\<lparr>hour = 23, minute = 50, second = 42\<rparr>" 20]
  by (auto simp: valid_Time_def Time_init_def)

section \<open>Events: properties\<close>

lemma overlaps_with_commute: "overlaps_with A B = overlaps_with B A"
  by (auto simp: overlaps_with_def is_before_def Time_eq_def)

text \<open>
  C7. For every pair of events a and b: if their days differ then \<open>a.conflicts_with(b)\<close>
  is false, also when their time ranges are identical; if their days are equal and their
  time ranges overlap then \<open>a.conflicts_with(b)\<close> is true; and conflict detection is
  symmetric.
\<close>

theorem conflicts_with_same_day_only:
  "(\<not> Day_eq (day a) (day b) \<longrightarrow> \<not> conflicts_with a b)
   \<and> (Day_eq (day a) (day b) \<and> overlaps_with (time_range a) (time_range b)
        \<longrightarrow> conflicts_with a b)
   \<and> conflicts_with a b = conflicts_with b a"
proof -
  have "Day_eq (day a) (day b) = Day_eq (day b) (day a)"
    by (auto simp: Day_eq_def)
  then show ?thesis
    using overlaps_with_commute [of "time_range a" "time_range b"]
    by (simp add: conflicts_with_def)
qed

theorem conflicts_with_same_day_only_witness:
  "\<not> Day_eq (day (ex_event (ymd 2025 6 2) (range_hm 10 0 11 0)))
            (day (ex_event (ymd 2025 6 3) (range_hm 10 0 11 0)))
   \<and> time_range (ex_event (ymd 2025 6 2) (range_hm 10 0 11 0))
       = time_range (ex_event (ymd 2025 6 3) (range_hm 10 0 11 0))
   \<and> \<not> conflicts_with (ex_event (ymd 2025 6 2) (range_hm 10 0 11 0))
                       (ex_event (ymd 2025 6 3) (range_hm 10 0 11 0))
   \<and> overlaps_with (range_hm 10 0 11 0) (range_hm 10 30 12 0)
   \<and> conflicts_with (ex_event (ymd 2025 6 2) (range_hm 10 0 11 0))
                    (ex_event (ymd 2025 6 2) (range_hm 10 30 12 0))
   \<and> conflicts_with (ex_event (ymd 2025 6 2) (range_hm 10 30 12 0))
                    (ex_event (ymd 2025 6 2) (range_hm 10 0 11 0))"
proof -
  let ?a = "ex_event (ymd 2025 6 2) (range_hm 10 0 11 0)"
  let ?b = "ex_event (ymd 2025 6 3) (range_hm 10 0 11 0)"
  let ?c = "ex_event (ymd 2025 6 2) (range_hm 10 30 12 0)"
  have d: "\<not> Day_eq (day ?a) (day ?b)" and s: "Day_eq (day ?a) (day ?c)"
    by (simp_all add: ex_event_def ymd_def Day_eq_def Day_date_def)
  have r: "time_range ?a = time_range ?b"
    by (simp add: ex_event_def)
  have o: "overlaps_with (range_hm 10 0 11 0) (range_hm 10 30 12 0)"
    by (simp add: overlaps_with_def is_before_def Time_eq_def time_obj_def range_hm_def hm_def)
  then have o': "overlaps_with (time_range ?a) (time_range ?c)"
    by (simp add: ex_event_def)
  have 1: "\<not> conflicts_with ?a ?b"
    using conflicts_with_same_day_only [of ?a ?b] d by blast
  have 2: "conflicts_with ?a ?c \<and> conflicts_with ?c ?a"
    using conflicts_with_same_day_only [of ?a ?c] s o' by blast
  show ?thesis using d r o 1 2 by blast
qed

lemma Event_init_priority:
  "priority (fst (Event_init h t d r kw)) = dflt MEDIUM (priority_kw kw)"
  by (simp add: Event_init_def split: prod.splits)

lemma Appointment_init_priority:
  "priority (fst (Appointment_init h t d r kw)) = dflt MEDIUM (priority_kw kw)"
proof -
  obtain base h1 where b: "Event_init h t d r kw = (base, h1)"
    by (cases "Event_init h t d r kw")
  then have "priority base = dflt MEDIUM (priority_kw kw)"
    using Event_init_priority [of h t d r kw] by simp
  then show ?thesis
    by (simp add: Appointment_init_def b Event.extend_def split: prod.splits)
qed

text \<open>
  C9. A DoctorAppointment constructed without a \<open>priority\<close> argument has priority HIGH
  (where the inherited constructor alone would give MEDIUM); constructed with an
  explicitly supplied priority p, it has priority p.
\<close>

theorem DoctorAppointment_priority:
  "(priority_kw kw = None \<longrightarrow>
      priority (fst (DoctorAppointment_init h t d r dn sp ir mn kw)) = HIGH
      \<and> priority (fst (Appointment_init h t d r kw)) = MEDIUM)
   \<and> (priority_kw kw = Some p \<longrightarrow>
      priority (fst (DoctorAppointment_init h t d r dn sp ir mn kw)) = p)"
proof -
  obtain base h1 where b: "Appointment_init h t d r kw = (base, h1)"
    by (cases "Appointment_init h t d r kw")
  then have "priority base = dflt MEDIUM (priority_kw kw)"
    using Appointment_init_priority [of h t d r kw] by simp
  then show ?thesis
    by (auto simp: DoctorAppointment_init_def b Appointment.extend_def dflt_def Let_def)
qed

theorem DoctorAppointment_priority_witness:
  "priority (fst (DoctorAppointment_init ex_heap ''Checkup'' (ymd 2025 6 2) (range_hm 10 0 11 0)
       (Some ''Dr. Smith'') None None None no_kwargs)) = HIGH
   \<and> priority (fst (DoctorAppointment_init ex_heap ''Checkup'' (ymd 2025 6 2)
       (range_hm 10 0 11 0) (Some ''Dr. Smith'') None None None
       (no_kwargs\<lparr>priority_kw := Some LOW\<rparr>))) = LOW"
  using DoctorAppointment_priority [of no_kwargs ex_heap "''Checkup''" "ymd 2025 6 2"
          "range_hm 10 0 11 0" "Some ''Dr. Smith''" None None None LOW]
        DoctorAppointment_priority [of "no_kwargs\<lparr>priority_kw := Some LOW\<rparr>" ex_heap
          "''Checkup''" "ymd 2025 6 2" "range_hm 10 0 11 0" "Some ''Dr. Smith''"
          None None None LOW]
  by (simp add: no_kwargs_def)

lemma days_in_month_bounds: "28 \<le> days_in_month y m \<and> days_in_month y m \<le> 31"
  by (simp add: days_in_month_def)

lemma calendar_date_succ: "calendar_date dt \<Longrightarrow> calendar_date (date_succ dt)"
  using days_in_month_bounds
  by (cases dt) (auto simp: calendar_date_def days_in_month_def)

lemma calendar_date_pred: "calendar_date dt \<Longrightarrow> calendar_date (date_pred dt)"
  by (cases dt) (auto simp: calendar_date_def days_in_month_def)

lemma calendar_date_funpow_succ: "calendar_date dt \<Longrightarrow> calendar_date ((date_succ ^^ k) dt)"
  by (induction k) (simp_all add: calendar_date_succ)

lemma calendar_date_funpow_pred: "calendar_date dt \<Longrightarrow> calendar_date ((date_pred ^^ k) dt)"
  by (induction k) (simp_all add: calendar_date_pred)

lemma calendar_date_shift: "calendar_date dt \<Longrightarrow> calendar_date (date_shift dt n)"
  by (simp add: date_shift_def calendar_date_funpow_succ calendar_date_funpow_pred)

lemma from_date_valid:
  "valid_date dt \<Longrightarrow> \<exists>d. from_date dt = Inr d \<and> Day_date d = dt"
  by (cases dt) (auto simp: valid_date_def calendar_date_def from_date_def Day_init_def
      date_init_def Day_date_def)

lemma date_plus_days_valid:
  "calendar_date dt \<Longrightarrow> date_plus_days dt n = Inr r \<Longrightarrow> valid_date r \<and> r = date_shift dt n"
  by (auto simp: date_plus_days_def Let_def valid_date_def calendar_date_shift split: if_splits)

lemma get_next_occurrence_in_range:
  assumes self: "self < length (event_objs h)" "event_objs h ! self = ChoreObj c"
    and tags: "tags c < length (list_objs h)"
    and cal: "calendar_date (Day_date (day c))"
    and rec: "is_recurring c"
    and rng: "1 \<le> fst (date_shift (Day_date (day c)) (recurrence_days c))"
             "fst (date_shift (Day_date (day c)) (recurrence_days c)) \<le> 9999"
  shows "\<exists>c' h'. get_next_occurrence h self = (Inr (Some (length (event_objs h))), h')
     \<and> event_objs h' = event_objs h @ [ChoreObj c']
     \<and> list_objs h' = list_objs h @ [list_objs h ! tags c]
     \<and> Day_date (day c') = date_shift (Day_date (day c)) (recurrence_days c)
     \<and> title c' = title c \<and> Chore.category c' = Chore.category c
     \<and> time_range c' = time_range c
     \<and> is_recurring c' = is_recurring c \<and> recurrence_days c' = recurrence_days c
     \<and> estimated_effort c' = estimated_effort c \<and> description c' = description c
     \<and> priority c' = priority c \<and> notes c' = notes c
     \<and> tags c' = length (list_objs h) \<and> tags c' \<noteq> tags c
     \<and> list_objs h' ! tags c' = list_objs h ! tags c
     \<and> event_objs h' ! self = ChoreObj c \<and> list_objs h' ! tags c = list_objs h ! tags c"
proof -
  let ?nd = "date_shift (Day_date (day c)) (recurrence_days c)"
  have p: "date_plus_days (Day_date (day c)) (recurrence_days c) = Inr ?nd"
    using rng by (simp add: date_plus_days_def Let_def)
  have "valid_date ?nd"
    using rng cal by (simp add: valid_date_def calendar_date_shift)
  then obtain d where d: "from_date ?nd = Inr d" "Day_date d = ?nd"
    using from_date_valid by blast
  show ?thesis
    using self tags rec p d
    by (simp add: get_next_occurrence_def list_copy_def new_list_def Chore_init_def
        Event_init_def list_or_new_def new_event_def dflt_def Event.extend_def
        Chore.fields_def nth_append)
qed

lemma get_next_occurrence_out_of_range:
  assumes "event_objs h ! self = ChoreObj c"
    and "is_recurring c"
    and "\<not> (1 \<le> fst (date_shift (Day_date (day c)) (recurrence_days c))
            \<and> fst (date_shift (Day_date (day c)) (recurrence_days c)) \<le> 9999)"
  shows "get_next_occurrence h self = (Inl OverflowError, h)"
proof -
  have "date_plus_days (Day_date (day c)) (recurrence_days c) = Inl OverflowError"
    using assms(3) by (simp add: date_plus_days_def Let_def)
  then show ?thesis
    using assms(1,2) by (simp add: get_next_occurrence_def)
qed

text \<open>
  C8 (as amended). Let c be a recurring Chore. If c's day advanced by
  \<open>c.recurrence_days\<close> days is still a date of the years 1..9999, then
  \<open>c.get_next_occurrence()\<close> returns a new Chore (a fresh object) on that advanced day,
  with c's title, category, time range, recurrence settings, effort, description,
  priority and notes, and with a new tag list that has the contents of c's; c and its tag
  list are as they were before the call. If the advanced day is outside the years
  1..9999, the call raises \<^verbatim>\<open>OverflowError\<close>, returns no Chore and changes nothing.
\<close>

theorem get_next_occurrence_recurring:
  assumes "self < length (event_objs h)" and "event_objs h ! self = ChoreObj c"
    and "tags c < length (list_objs h)"
    and "calendar_date (Day_date (day c))"
    and "is_recurring c"
  shows "(1 \<le> fst (date_shift (Day_date (day c)) (recurrence_days c))
          \<and> fst (date_shift (Day_date (day c)) (recurrence_days c)) \<le> 9999 \<longrightarrow>
     (\<exists>c' h'. get_next_occurrence h self = (Inr (Some (length (event_objs h))), h')
       \<and> event_objs h' = event_objs h @ [ChoreObj c']
       \<and> list_objs h' = list_objs h @ [list_objs h ! tags c]
       \<and> Day_date (day c') = date_shift (Day_date (day c)) (recurrence_days c)
       \<and> title c' = title c \<and> Chore.category c' = Chore.category c
       \<and> time_range c' = time_range c
       \<and> is_recurring c' = is_recurring c \<and> recurrence_days c' = recurrence_days c
       \<and> estimated_effort c' = estimated_effort c \<and> description c' = description c
       \<and> priority c' = priority c \<and> notes c' = notes c
       \<and> tags c' = length (list_objs h) \<and> tags c' \<noteq> tags c
       \<and> list_objs h' ! tags c' = list_objs h ! tags c
       \<and> event_objs h' ! self = ChoreObj c \<and> list_objs h' ! tags c = list_objs h ! tags c))
   \<and> (\<not> (1 \<le> fst (date_shift (Day_date (day c)) (recurrence_days c))
            \<and> fst (date_shift (Day_date (day c)) (recurrence_days c)) \<le> 9999) \<longrightarrow>
     get_next_occurrence h self = (Inl OverflowError, h))"
proof (intro conjI impI)
  assume "1 \<le> fst (date_shift (Day_date (day c)) (recurrence_days c))
          \<and> fst (date_shift (Day_date (day c)) (recurrence_days c)) \<le> 9999"
  then show "\<exists>c' h'. get_next_occurrence h self = (Inr (Some (length (event_objs h))), h')
       \<and> event_objs h' = event_objs h @ [ChoreObj c']
       \<and> list_objs h' = list_objs h @ [list_objs h ! tags c]
       \<and> Day_date (day c') = date_shift (Day_date (day c)) (recurrence_days c)
       \<and> title c' = title c \<and> Chore.category c' = Chore.category c
       \<and> time_range c' = time_range c
       \<and> is_recurring c' = is_recurring c \<and> recurrence_days c' = recurrence_days c
       \<and> estimated_effort c' = estimated_effort c \<and> description c' = description c
       \<and> priority c' = priority c \<and> notes c' = notes c
       \<and> tags c' = length (list_objs h) \<and> tags c' \<noteq> tags c
       \<and> list_objs h' ! tags c' = list_objs h ! tags c
       \<and> event_objs h' ! self = ChoreObj c \<and> list_objs h' ! tags c = list_objs h ! tags c"
    using get_next_occurrence_in_range [OF assms] by blast
next
  assume "\<not> (1 \<le> fst (date_shift (Day_date (day c)) (recurrence_days c))
            \<and> fst (date_shift (Day_date (day c)) (recurrence_days c)) \<le> 9999)"
  then show "get_next_occurrence h self = (Inl OverflowError, h)"
    using get_next_occurrence_out_of_range [OF assms(2) assms(5)] by blast
qed

theorem get_next_occurrence_recurring_witness:
  "is_recurring (ex_chore (ymd 2025 6 27) (range_hm 9 0 10 0) 7)
   \<and> recurrence_days (ex_chore (ymd 2025 6 27) (range_hm 9 0 10 0) 7) = 7
   \<and> (\<exists>c' h'. get_next_occurrence (ex_chore_heap (ymd 2025 6 27) 7) 0 = (Inr (Some 1), h')
        \<and> event_objs h' ! 1 = ChoreObj c'
        \<and> day c' = ymd 2025 7 4
        \<and> title c' = ''Event'' \<and> Chore.category c' = ''Cleaning''
        \<and> tags c' = 1 \<and> list_objs h' = [[''home'', ''weekly''], [''home'', ''weekly'']]
        \<and> event_objs h' ! 0 = ChoreObj (ex_chore (ymd 2025 6 27) (range_hm 9 0 10 0) 7))
   \<and> is_recurring (ex_chore (ymd 1 1 1) (range_hm 9 0 10 0) (- 1))
   \<and> Day_init 1 1 1 = Inr (ymd 1 1 1)
   \<and> get_next_occurrence (ex_chore_heap (ymd 1 1 1) (- 1)) 0
       = (Inl OverflowError, ex_chore_heap (ymd 1 1 1) (- 1))"
proof -
  let ?c = "ex_chore (ymd 2025 6 27) (range_hm 9 0 10 0) 7"
  let ?h = "ex_chore_heap (ymd 2025 6 27) 7"
  have s: "date_shift (Day_date (day ?c)) (recurrence_days ?c) = (2025, 7, 4)"
    by (simp add: ex_chore_def ex_event_def ymd_def Day_date_def Event.extend_def
        Chore.fields_def date_shift_def eval_nat_numeral days_in_month_def is_leap_def)
  have f: "is_recurring ?c" "recurrence_days ?c = 7" "tags ?c = 0" "title ?c = ''Event''"
    "Chore.category ?c = ''Cleaning''"
    by (simp_all add: ex_chore_def ex_event_def Event.extend_def Chore.fields_def)
  have c: "calendar_date (Day_date (day ?c))"
    by (simp add: ex_chore_def ex_event_def ymd_def Day_date_def Event.extend_def
        calendar_date_def days_in_month_def)
  have h: "event_objs ?h = [ChoreObj ?c]" "list_objs ?h = [[''home'', ''weekly'']]"
    by (simp_all add: ex_chore_heap_def)
  obtain c' h' where r: "get_next_occurrence ?h 0 = (Inr (Some (length (event_objs ?h))), h')"
      "event_objs h' = event_objs ?h @ [ChoreObj c']"
      "list_objs h' = list_objs ?h @ [list_objs ?h ! tags ?c]"
      "Day_date (day c') = date_shift (Day_date (day ?c)) (recurrence_days ?c)"
      "title c' = title ?c" "Chore.category c' = Chore.category ?c"
      "tags c' = length (list_objs ?h)"
      "event_objs h' ! 0 = ChoreObj ?c"
    using get_next_occurrence_recurring [of 0 ?h ?c] s f c h by auto
  have t: "tags c' = 1"
    using r(7) h by simp
  have d: "day c' = ymd 2025 7 4"
    using r(4) s by (cases "day c'") (simp add: Day_date_def ymd_def)
  let ?e = "ex_chore (ymd 1 1 1) (range_hm 9 0 10 0) (- 1)"
  let ?g = "ex_chore_heap (ymd 1 1 1) (- 1)"
  have s': "date_shift (Day_date (day ?e)) (recurrence_days ?e) = (0, 12, 31)"
    by (simp add: ex_chore_def ex_event_def ymd_def Day_date_def Event.extend_def
        Chore.fields_def date_shift_def)
  have f': "is_recurring ?e" "tags ?e = 0"
    by (simp_all add: ex_chore_def ex_event_def Event.extend_def Chore.fields_def)
  have c': "calendar_date (Day_date (day ?e))"
    by (simp add: ex_chore_def ex_event_def ymd_def Day_date_def Event.extend_def
        calendar_date_def days_in_month_def)
  have h': "event_objs ?g = [ChoreObj ?e]" "list_objs ?g = [[''home'', ''weekly'']]"
    by (simp_all add: ex_chore_heap_def)
  have o: "get_next_occurrence ?g 0 = (Inl OverflowError, ?g)"
    using get_next_occurrence_recurring [of 0 ?g ?e] s' f' c' h' by simp
  have i: "Day_init 1 1 1 = Inr (ymd 1 1 1)"
    by (simp add: Day_init_def date_init_def days_in_month_def ymd_def)
  show ?thesis
    using r h f t d f'(1) i o by auto
qed

theorem get_next_occurrence_overflow:
  "is_recurring (ex_chore (ymd 9999 12 31) (range_hm 9 0 10 0) 7)
   \<and> Day_init 9999 12 31 = Inr (ymd 9999 12 31)
   \<and> get_next_occurrence (ex_chore_heap (ymd 9999 12 31) 7) 0
       = (Inl OverflowError, ex_chore_heap (ymd 9999 12 31) 7)"
  by (simp add: get_next_occurrence_def ex_chore_heap_def ex_chore_def ex_event_def ymd_def
      Day_date_def Event.extend_def Chore.fields_def date_plus_days_def date_shift_def
      eval_nat_numeral days_in_month_def is_leap_def Day_init_def date_init_def)

section \<open>Schedule: properties\<close>

lemma Time_init_9: "Time_init 9 0 0 = Inr (hm 9 0)"
  by (simp add: Time_init_literal)

lemma Time_init_21: "Time_init 21 0 0 = Inr (hm 21 0)"
  by (simp add: Time_init_literal)

lemma working_window: "TimeRange_init (hm 9 0) (hm 21 0) = Inr (range_hm 9 0 21 0)"
  by (simp add: TimeRange_init_literal)

text \<open>
  C3. If the schedule has no events on day d, \<open>get_free_time_slots(d, m)\<close> returns exactly
  one slot, the working window from 09:00 to 21:00, for every minimum duration m: the
  duration filter is not applied on an empty day.
\<close>

theorem get_free_time_slots_empty_day:
  assumes "fst (get_events_on_day h s d) = []"
  shows "fst (get_free_time_slots h s d m) = Inr [range_hm 9 0 21 0]"
proof -
  obtain s' where "get_events_on_day h s d = ([], s')"
    using assms by (cases "get_events_on_day h s d") simp
  then show ?thesis
    by (simp add: get_free_time_slots_def Time_init_9 Time_init_21 working_window)
qed

text \<open>
  C5. On a schedule without events \<open>get_statistics()\<close> returns normally, reports
  \<open>total_events = 0\<close> and computes no average; and on no schedule does it raise
  \<^verbatim>\<open>ZeroDivisionError\<close>, since the division is guarded by the test for the empty list.
\<close>

theorem get_statistics_empty:
  "(events s = [] \<longrightarrow>
      (\<exists>st. get_statistics h today s = Inr st \<and> total_events st = 0
            \<and> average_event_duration st = None))
   \<and> get_statistics h today s \<noteq> Inl ZeroDivisionError"
  by (auto simp: get_statistics_def true_div_def)

lemma day_bucket_fst: "fst (day_bucket s d) = bucket_of s d"
  by (simp add: day_bucket_def bucket_of_def split: option.splits)

lemma day_bucket_events: "events (snd (day_bucket s d)) = events s"
  by (simp add: day_bucket_def split: option.splits)

lemma day_bucket_bucket_of: "bucket_of (snd (day_bucket s d)) d' = bucket_of s d'"
  by (simp add: day_bucket_def bucket_of_def split: option.splits)

lemma day_bucket_nonempty: "bucket_of s d \<noteq> [] \<Longrightarrow> day_bucket s d = (bucket_of s d, s)"
  by (simp add: day_bucket_def bucket_of_def split: option.splits)

lemma get_events_on_day_fst:
  "fst (get_events_on_day h s d) = sort_key (start_key h) (bucket_of s d)"
  by (simp add: get_events_on_day_def day_bucket_fst [symmetric] split: prod.splits)

lemma get_events_on_day_snd: "snd (get_events_on_day h s d) = snd (day_bucket s d)"
  by (simp add: get_events_on_day_def split: prod.splits)

lemma get_conflicting_events_fst:
  "fst (get_conflicting_events h s e) \<noteq> [] \<longleftrightarrow> conflict_on_day h s e"
proof -
  obtain xs s' where g: "get_events_on_day h s (day (obj h e)) = (xs, s')"
    by (cases "get_events_on_day h s (day (obj h e))")
  then have "set xs = set (bucket_of s (day (obj h e)))"
    using get_events_on_day_fst [of h s "day (obj h e)"] by simp
  moreover have "Day_eq a b = Day_eq b a" for a b
    by (auto simp: Day_eq_def)
  ultimately show ?thesis
    unfolding get_conflicting_events_def g conflict_on_day_def conflicts_with_def
    by (simp add: filter_empty_conv) blast
qed

lemma get_conflicting_events_snd:
  "snd (get_conflicting_events h s e) = snd (day_bucket s (day (obj h e)))"
proof -
  obtain xs s' where g: "get_events_on_day h s (day (obj h e)) = (xs, s')"
    by (cases "get_events_on_day h s (day (obj h e))")
  then show ?thesis
    using get_events_on_day_snd [of h s "day (obj h e)"]
    by (simp add: get_conflicting_events_def)
qed

lemma conflict_bucket_nonempty: "conflict_on_day h s e \<Longrightarrow> bucket_of s (day (obj h e)) \<noteq> []"
  by (auto simp: conflict_on_day_def)

lemma append_after_bucket:
  "(case day_bucket (s1\<lparr>events := events s1 @ [e]\<rparr>) d of
      (b, s3) \<Rightarrow> (True, s3\<lparr>events_by_day := (events_by_day s3)(d \<mapsto> b @ [e])\<rparr>))
   = (True, s1\<lparr>events := events s1 @ [e],
                 events_by_day := (events_by_day s1)(d \<mapsto> bucket_of s1 d @ [e])\<rparr>)"
  by (cases "events_by_day s1 d") (simp_all add: day_bucket_def bucket_of_def)

lemma add_event_unchecked: "add_event h s e False = (True, register h s e)"
  by (simp add: add_event_def append_after_bucket register_def)

lemma add_event_checked:
  "add_event h s e True =
     (if conflict_on_day h s e then (False, s) else (True, register h s e))"
proof -
  obtain cs s1 where g: "get_conflicting_events h s e = (cs, s1)"
    by (cases "get_conflicting_events h s e")
  have c: "cs \<noteq> [] \<longleftrightarrow> conflict_on_day h s e"
    using get_conflicting_events_fst [of h s e] g by simp
  have s1: "s1 = snd (day_bucket s (day (obj h e)))"
    using get_conflicting_events_snd [of h s e] g by simp
  show ?thesis
  proof (cases "conflict_on_day h s e")
    case True
    then have "day_bucket s (day (obj h e)) = (bucket_of s (day (obj h e)), s)"
      by (simp add: day_bucket_nonempty conflict_bucket_nonempty)
    then show ?thesis using True c s1 by (simp add: add_event_def g)
  next
    case False
    have "s1\<lparr>events := events s1 @ [e],
              events_by_day := (events_by_day s1)(day (obj h e) \<mapsto> bucket_of s1 (day (obj h e)) @ [e])\<rparr>
          = register h s e"
      by (simp add: s1 register_def day_bucket_def bucket_of_def split: option.splits)
    then show ?thesis using False c
      by (simp add: add_event_def g append_after_bucket)
  qed
qed

lemma Day_eq_iff: "Day_eq a b \<longleftrightarrow> a = b"
  by (cases a, cases b) (auto simp: Day_eq_def Day_date_def)

lemma index_inv_init: "index_inv h (Schedule_init n)"
  by (simp add: index_inv_def Schedule_init_def bucket_of_def)

lemma bucket_of_register:
  "bucket_of (register h s e) d =
     (if d = day (obj h e) then bucket_of s d @ [e] else bucket_of s d)"
  by (simp add: register_def bucket_of_def)

lemma index_inv_register:
  assumes "index_inv h s" "e < length (event_objs h)"
  shows "index_inv h (register h s e)"
proof -
  have "events (register h s e) = events s @ [e]"
    by (simp add: register_def)
  then show ?thesis
    using assms by (auto simp: index_inv_def bucket_of_register)
qed

lemma index_inv_add:
  assumes "index_inv h s" "e < length (event_objs h)"
  shows "index_inv h (snd (add_event h s e cc))"
  using assms index_inv_register [OF assms]
  by (cases cc) (simp_all add: add_event_checked add_event_unchecked)

lemma remove_event_indexed:
  assumes "index_inv h s" "e \<in> set (events s)"
  shows "remove_event h s e =
           (Inr True, s\<lparr>events := remove1 e (events s),
                        events_by_day := (events_by_day s)(day (obj h e) \<mapsto>
                            remove1 e (bucket_of s (day (obj h e))))\<rparr>)"
proof -
  let ?d = "day (obj h e)"
  have b: "bucket_of s ?d = filter (\<lambda>a. day (obj h a) = ?d) (events s)"
    using assms(1) by (simp add: index_inv_def)
  then have m: "e \<in> set (bucket_of s ?d)"
    using assms(2) by simp
  show ?thesis
  proof (cases "events_by_day s ?d")
    case None
    then show ?thesis using m by (simp add: bucket_of_def)
  next
    case (Some xs)
    then show ?thesis using m assms(2)
      by (simp add: remove_event_def day_bucket_def bucket_of_def Let_def)
  qed
qed

lemma index_inv_remove:
  assumes "index_inv h s"
  shows "index_inv h (snd (remove_event h s e))"
proof (cases "e \<in> set (events s)")
  case False
  then show ?thesis using assms by (simp add: remove_event_def)
next
  case True
  let ?d = "day (obj h e)"
  let ?s = "s\<lparr>events := remove1 e (events s),
              events_by_day := (events_by_day s)(?d \<mapsto> remove1 e (bucket_of s ?d))\<rparr>"
  have b: "bucket_of s d = filter (\<lambda>a. day (obj h a) = d) (events s)" for d
    using assms by (simp add: index_inv_def)
  have "bucket_of ?s d = filter (\<lambda>a. day (obj h a) = d) (remove1 e (events s))" for d
  proof (cases "d = ?d")
    case True
    then show ?thesis by (simp add: bucket_of_def filter_remove1 b [symmetric])
  next
    case False
    then have "e \<notin> set (filter (\<lambda>a. day (obj h a) = d) (events s))" by auto
    then have "remove1 e (filter (\<lambda>a. day (obj h a) = d) (events s))
                 = filter (\<lambda>a. day (obj h a) = d) (events s)"
      by (rule remove1_idem)
    then show ?thesis using False b [of d]
      by (simp add: bucket_of_def filter_remove1)
  qed
  moreover have "\<forall>a \<in> set (events ?s). a < length (event_objs h)"
    using assms by (auto simp: index_inv_def dest: notin_set_remove1)
  ultimately have "index_inv h ?s"
    by (simp add: index_inv_def)
  then show ?thesis
    using remove_event_indexed [OF assms True] by simp
qed

lemma index_inv_heap:
  assumes "index_inv h s" "length (event_objs h) \<le> length (event_objs h')"
    "\<forall>a < length (event_objs h). day (obj h' a) = day (obj h a)"
  shows "index_inv h' s"
proof -
  have v: "\<forall>a \<in> set (events s). a < length (event_objs h)"
    using assms(1) by (simp add: index_inv_def)
  have "filter (\<lambda>a. day (obj h' a) = d) (events s) = filter (\<lambda>a. day (obj h a) = d) (events s)" for d
    by (rule filter_cong) (use v assms(3) in auto)
  then show ?thesis
    using assms(1,2) v by (fastforce simp: index_inv_def)
qed

lemma index_inv_query:
  assumes "index_inv h s"
  shows "index_inv h (snd (get_events_on_day h s d))"
  using assms
  by (simp add: index_inv_def get_events_on_day_snd day_bucket_events day_bucket_bucket_of)

lemma reachable_index_inv: "reachable h s \<Longrightarrow> index_inv h s"
  by (induction rule: reachable.induct)
     (simp_all add: index_inv_init index_inv_add index_inv_remove index_inv_query
        index_inv_heap)

text \<open>
  C1. After any sequence of \<open>add_event\<close> and \<open>remove_event\<close> calls from an empty schedule
  (no event's \<open>day\<close> field being changed), \<open>get_events_on_day(d)\<close> returns exactly the
  schedule's events whose day is d (as a multiset: an event registered twice is returned
  twice), in ascending order of their start times, and events with equal start times
  appear in the order they have in the event list, which is the order of their addition.
\<close>

theorem get_events_on_day_indexed:
  assumes "reachable h s"
  shows "mset (fst (get_events_on_day h s d))
           = mset (filter (\<lambda>a. Day_eq (day (obj h a)) d) (events s))
         \<and> sorted (map (start_key h) (fst (get_events_on_day h s d)))
         \<and> (\<forall>k. filter (\<lambda>a. start_key h a = k) (fst (get_events_on_day h s d))
                 = filter (\<lambda>a. start_key h a = k)
                     (filter (\<lambda>a. Day_eq (day (obj h a)) d) (events s)))"
proof -
  have "bucket_of s d = filter (\<lambda>a. Day_eq (day (obj h a)) d) (events s)"
    using reachable_index_inv [OF assms] by (simp add: index_inv_def Day_eq_iff)
  then have "fst (get_events_on_day h s d)
               = sort_key (start_key h) (filter (\<lambda>a. Day_eq (day (obj h a)) d) (events s))"
    by (simp add: get_events_on_day_fst)
  then show ?thesis
    by (simp add: sort_key_stable)
qed

lemma valid_Time_minute: "valid_Time t \<Longrightarrow> 0 \<le> minute t \<and> minute t \<le> 59"
  by (auto simp: valid_Time_def Time_init_def split: if_splits)

lemma gap_constructible:
  assumes "valid_Time a" "valid_Time b" "1 \<le> to_minutes b - to_minutes a"
  shows "TimeRange_init a b = Inr (slot_of (a, b))"
proof -
  have "\<not> is_before b a"
    using valid_Time_minute [OF assms(1)] valid_Time_minute [OF assms(2)] assms(3)
    by (auto simp: is_before_def time_obj_def to_minutes_def)
  then show ?thesis
    by (simp add: TimeRange_init_def slot_of_def difference_in_minutes_def)
qed

lemma valid_hm_21: "valid_Time (hm 21 0)"
  by (simp add: valid_Time_def Time_init_def hm_def)

lemma valid_hm_9: "valid_Time (hm 9 0)"
  by (simp add: valid_Time_def Time_init_def hm_def)

lemma free_slots_loop_walk:
  assumes "1 \<le> m" "valid_Time cur"
    "\<forall>a \<in> set evs. valid_Time (start_time (time_range (obj h a)))
                  \<and> valid_Time (end_time (time_range (obj h a)))"
  shows "finish m (free_slots_loop h m evs (acc, cur))
         = Inr (acc @ map slot_of (walk_gaps m cur
             (map (\<lambda>a. (start_time (time_range (obj h a)), end_time (time_range (obj h a)))) evs)))"
  using assms(2,3)
proof (induction evs arbitrary: acc cur)
  case Nil
  then show ?case
    using assms(1) gap_constructible [OF Nil(1) valid_hm_21]
    by (simp add: finish_def difference_in_minutes_def)
next
  case (Cons e evs)
  let ?s = "start_time (time_range (obj h e))"
  let ?e = "end_time (time_range (obj h e))"
  have v: "valid_Time ?s" "valid_Time ?e"
    using Cons.prems(2) by simp_all
  have nxt: "valid_Time (if is_after ?e cur then ?e else cur)"
    using v Cons.prems(1) by simp
  have rest: "\<forall>a \<in> set evs. valid_Time (start_time (time_range (obj h a)))
                  \<and> valid_Time (end_time (time_range (obj h a)))"
    using Cons.prems(2) by simp
  show ?case
  proof (cases "m \<le> to_minutes ?s - to_minutes cur")
    case True
    then have "TimeRange_init cur ?s = Inr (slot_of (cur, ?s))"
      using gap_constructible [OF Cons.prems(1) v(1)] assms(1) by simp
    then show ?thesis
      using True Cons.IH [OF nxt rest, of "acc @ [slot_of (cur, ?s)]"]
      by (simp add: difference_in_minutes_def)
  next
    case False
    then show ?thesis
      using Cons.IH [OF nxt rest, of acc]
      by (simp add: difference_in_minutes_def)
  qed
qed

lemma get_free_time_slots_finish:
  assumes "fst (get_events_on_day h s d) \<noteq> []"
  shows "fst (get_free_time_slots h s d m)
         = finish m (free_slots_loop h m (fst (get_events_on_day h s d)) ([], hm 9 0))"
proof -
  obtain evs s' where g: "get_events_on_day h s d = (evs, s')"
    by (cases "get_events_on_day h s d")
  then have "evs \<noteq> []" using assms by simp
  then show ?thesis
    by (simp add: get_free_time_slots_def g Time_init_9 Time_init_21 finish_def
        split: sum.splits prod.splits)
qed

text \<open>
  C4 (as amended). For a day d with at least one event (whose times are constructed
  \<^verbatim>\<open>Time\<close> objects) and a minimum duration m of at least one minute,
  \<open>get_free_time_slots(d, m)\<close> returns the slots of the walk over the
  day's events in ascending start order: from the cursor (initially 09:00) to an event's
  start whenever that gap is at least m minutes, the cursor advancing to an event's end
  only when that end is after it, and finally from the cursor to 21:00 if that is at
  least m minutes. For events 10:00-11:00 and 14:00-15:00 the result with m = 60 is
  09:00-10:00, 11:00-14:00, 15:00-21:00, and with m = 200 it is 15:00-21:00 only.
\<close>

theorem get_free_time_slots_walk:
  assumes "1 \<le> m"
    and "fst (get_events_on_day h s d) \<noteq> []"
    and "\<forall>a \<in> set (fst (get_events_on_day h s d)).
           valid_Time (start_time (time_range (obj h a)))
           \<and> valid_Time (end_time (time_range (obj h a)))"
  shows "fst (get_free_time_slots h s d m)
           = Inr (map slot_of (walk_gaps m (hm 9 0) (day_ranges h s d)))
         \<and> (day_ranges h s d = [(hm 10 0, hm 11 0), (hm 14 0, hm 15 0)] \<longrightarrow>
              (m = 60 \<longrightarrow> fst (get_free_time_slots h s d m)
                  = Inr [range_hm 9 0 10 0, range_hm 11 0 14 0, range_hm 15 0 21 0])
              \<and> (m = 200 \<longrightarrow> fst (get_free_time_slots h s d m) = Inr [range_hm 15 0 21 0]))"
proof -
  have main: "fst (get_free_time_slots h s d m)
           = Inr (map slot_of (walk_gaps m (hm 9 0) (day_ranges h s d)))"
    using free_slots_loop_walk [OF assms(1) valid_hm_9 assms(3), of "[]"]
    by (simp add: get_free_time_slots_finish [OF assms(2)] day_ranges_def)
  have ex: "map slot_of (walk_gaps 60 (hm 9 0) [(hm 10 0, hm 11 0), (hm 14 0, hm 15 0)])
             = [range_hm 9 0 10 0, range_hm 11 0 14 0, range_hm 15 0 21 0]"
    "map slot_of (walk_gaps 200 (hm 9 0) [(hm 10 0, hm 11 0), (hm 14 0, hm 15 0)])
             = [range_hm 15 0 21 0]"
    by (simp_all add: slot_of_def range_hm_def hm_def to_minutes_def is_after_def time_obj_def)
  show ?thesis
    using main ex by auto
qed

section \<open>The example schedules, evaluated\<close>

lemmas ex_defs = ex_events_def ex_appointment_def ex_chore_def ex_event_def ymd_def
  Event.extend_def Event.truncate_def Appointment.fields_def Chore.fields_def obj_def

lemma ex_days:
  "day (obj ex_events 0) = ymd 2025 6 2" "day (obj ex_events 1) = ymd 2025 6 2"
  "day (obj ex_events 2) = ymd 2025 6 3" "day (obj ex_events 3) = ymd 2025 6 2"
  "day (obj ex_events 4) = ymd 2025 6 4" "day (obj ex_events 5) = ymd 2025 6 4"
  "day (obj ex_events (Suc 0)) = ymd 2025 6 2"
  by (simp_all add: ex_defs)

lemma ex_ranges:
  "time_range (obj ex_events 0) = range_hm 14 0 15 0"
  "time_range (obj ex_events 1) = range_hm 10 0 11 0"
  "time_range (obj ex_events 2) = range_hm 10 0 11 0"
  "time_range (obj ex_events 3) = range_hm 10 0 10 30"
  "time_range (obj ex_events 4) = \<lparr>start_time = hm 10 0,
      end_time = \<lparr>hour = 10, minute = 0, second = 30\<rparr>, duration_minutes = 0\<rparr>"
  "time_range (obj ex_events 5) = range_hm 10 0 10 0"
  "time_range (obj ex_events (Suc 0)) = range_hm 10 0 11 0"
  by (simp_all add: ex_defs)

lemma ex_start_keys:
  "start_key ex_events 0 = (14, 0, 0)" "start_key ex_events 1 = (10, 0, 0)"
  "start_key ex_events 2 = (10, 0, 0)" "start_key ex_events 3 = (10, 0, 0)"
  "start_key ex_events 4 = (10, 0, 0)" "start_key ex_events 5 = (10, 0, 0)"
  "start_key ex_events (Suc 0) = (10, 0, 0)"
  by (simp_all add: start_key_def ex_ranges range_hm_def hm_def time_obj_def)

lemma ymd_eq: "ymd y m d = ymd y' m' d' \<longleftrightarrow> y = y' \<and> m = m' \<and> d = d'"
  by (simp add: ymd_def)

lemma ex_two_eq:
  "ex_two = \<lparr>name = ''My Schedule'', events = [0, 1],
             events_by_day = [ymd 2025 6 2 \<mapsto> [0, 1]]\<rparr>"
  by (simp add: ex_two_def add_event_unchecked register_def bucket_of_def Schedule_init_def
      ex_days)

lemma ex_touching_eq:
  "ex_touching = \<lparr>name = ''My Schedule'', events = [4, 5],
             events_by_day = [ymd 2025 6 4 \<mapsto> [4, 5]]\<rparr>"
  by (simp add: ex_touching_def add_event_unchecked register_def bucket_of_def Schedule_init_def
      ex_days)

lemma ex_three_eq:
  "ex_three = \<lparr>name = ''My Schedule'', events = [0, 1, 3],
             events_by_day = [ymd 2025 6 2 \<mapsto> [0, 1, 3], ymd 2025 6 3 \<mapsto> []]\<rparr>"
  by (simp add: ex_three_def ex_two_eq add_event_unchecked register_def bucket_of_def
      ex_days remove_event_def day_bucket_def ymd_eq)

lemma ex_two_on_day:
  "get_events_on_day ex_events ex_two (ymd 2025 6 2) = ([1, 0], ex_two)"
  by (simp add: get_events_on_day_def day_bucket_def ex_two_eq ex_start_keys)

lemma ex_three_on_day:
  "get_events_on_day ex_events ex_three (ymd 2025 6 2) = ([1, 3, 0], ex_three)"
  by (simp add: get_events_on_day_def day_bucket_def ex_three_eq ex_start_keys ymd_eq)

section \<open>Schedule: conflicts, and the properties at the examples\<close>

lemma conflict_on_day_registered:
  assumes "index_inv h s"
  shows "conflict_on_day h s e \<longleftrightarrow> registered_conflict h s e"
proof -
  have "bucket_of s (day (obj h e)) = filter (\<lambda>a. day (obj h a) = day (obj h e)) (events s)"
    using assms by (simp add: index_inv_def)
  then show ?thesis
    by (auto simp: conflict_on_day_def registered_conflict_def Day_eq_iff)
qed

text \<open>
  C6 (as amended). On a schedule built by \<open>add_event\<close> and \<open>remove_event\<close> calls from an
  empty one (no event's \<open>day\<close> field being changed), \<open>add_event(e, check_conflicts=true)\<close>
  returns false when at least one already-registered event on e's day, other than e
  itself, overlaps e's time range, and then the event list and the day index are exactly
  as before; when there is no such event it returns true and appends e to the event list
  and to the bucket of e's day. With \<open>check_conflicts\<close> false it always returns true and
  appends e to both.
\<close>

theorem add_event_checks_conflicts:
  assumes "reachable h s"
  shows "add_event h s e True =
     (if registered_conflict h s e then (False, s)
      else (True, s\<lparr>events := events s @ [e],
                    events_by_day := (events_by_day s)(day (obj h e) \<mapsto>
                        bucket_of s (day (obj h e)) @ [e])\<rparr>))
   \<and> add_event h s e False =
       (True, s\<lparr>events := events s @ [e],
                 events_by_day := (events_by_day s)(day (obj h e) \<mapsto>
                     bucket_of s (day (obj h e)) @ [e])\<rparr>)"
  using conflict_on_day_registered [OF reachable_index_inv [OF assms], of e]
  by (simp add: add_event_checked add_event_unchecked register_def)

lemma ex_two_reachable: "reachable ex_events ex_two"
proof -
  have l: "length (event_objs ex_events) = 6"
    by (simp add: ex_events_def)
  have "reachable ex_events (Schedule_init ''My Schedule'')"
    by (rule reachable.init)
  then have "reachable ex_events (snd (add_event ex_events (Schedule_init ''My Schedule'') 0 False))"
    by (rule reachable.add) (simp add: l)
  then show ?thesis
    unfolding ex_two_def by (rule reachable.add) (simp add: l)
qed

lemma ex_two_conflict: "registered_conflict ex_events ex_two 3"
  by (simp add: registered_conflict_def ex_two_eq ex_days ex_ranges Day_eq_def
      overlaps_with_def is_before_def Time_eq_def time_obj_def range_hm_def hm_def)

lemma ex_two_no_conflict: "\<not> registered_conflict ex_events ex_two 2"
  by (simp add: registered_conflict_def ex_two_eq ex_days ymd_eq Day_eq_iff)

theorem add_event_checks_conflicts_witness:
  "reachable ex_events ex_two
   \<and> registered_conflict ex_events ex_two 3
   \<and> add_event ex_events ex_two 3 True = (False, ex_two)
   \<and> \<not> registered_conflict ex_events ex_two 2
   \<and> add_event ex_events ex_two 2 True =
       (True, \<lparr>name = ''My Schedule'', events = [0, 1, 2],
               events_by_day = [ymd 2025 6 2 \<mapsto> [0, 1], ymd 2025 6 3 \<mapsto> [2]]\<rparr>)"
  using add_event_checks_conflicts [OF ex_two_reachable, of 3]
        add_event_checks_conflicts [OF ex_two_reachable, of 2]
        ex_two_reachable ex_two_conflict ex_two_no_conflict
  by (simp add: ex_two_eq bucket_of_def ex_days ymd_eq)

text \<open>
  Event 1 is registered in \<open>ex_two\<close>, is on its own day and overlaps its own time range;
  adding it again with the check is not refused.
\<close>

theorem add_event_readd_not_refused:
  "reachable ex_events ex_two
   \<and> 1 \<in> set (events ex_two)
   \<and> Day_eq (day (obj ex_events 1)) (day (obj ex_events 1))
   \<and> overlaps_with (time_range (obj ex_events 1)) (time_range (obj ex_events 1))
   \<and> fst (add_event ex_events ex_two 1 True) = True
   \<and> events (snd (add_event ex_events ex_two 1 True)) = [0, 1, 1]"
proof -
  have "\<not> conflict_on_day ex_events ex_two 1"
    by (simp add: conflict_on_day_def bucket_of_def ex_two_eq ex_days ex_ranges Day_eq_def
        overlaps_with_def is_before_def Time_eq_def time_obj_def range_hm_def hm_def)
  then have "add_event ex_events ex_two 1 True = (True, register ex_events ex_two 1)"
    by (simp add: add_event_checked)
  moreover have "events (register ex_events ex_two 1) = [0, 1, 1]"
    by (simp add: register_def ex_two_eq)
  moreover have "overlaps_with (time_range (obj ex_events 1)) (time_range (obj ex_events 1))"
    by (simp add: ex_ranges overlaps_with_def is_before_def Time_eq_def time_obj_def
        range_hm_def hm_def)
  ultimately show ?thesis
    using ex_two_reachable by (simp add: ex_two_eq Day_eq_def)
qed

lemma ex_three_reachable: "reachable ex_events ex_three"
proof -
  have l: "length (event_objs ex_events) = 6"
    by (simp add: ex_events_def)
  have "reachable ex_events (snd (add_event ex_events ex_two 2 False))"
    using ex_two_reachable
    by (rule reachable.add) (simp add: l)
  then have "reachable ex_events
      (snd (add_event ex_events (snd (add_event ex_events ex_two 2 False)) 3 False))"
    by (rule reachable.add) (simp add: l)
  then show ?thesis
    unfolding ex_three_def by (rule reachable.remove)
qed

theorem get_events_on_day_indexed_witness:
  "reachable ex_events ex_three
   \<and> events ex_three = [0, 1, 3]
   \<and> fst (get_events_on_day ex_events ex_three (ymd 2025 6 2)) = [1, 3, 0]
   \<and> mset (fst (get_events_on_day ex_events ex_three (ymd 2025 6 2)))
       = mset (filter (\<lambda>a. Day_eq (day (obj ex_events a)) (ymd 2025 6 2)) (events ex_three))
   \<and> sorted (map (start_key ex_events)
         (fst (get_events_on_day ex_events ex_three (ymd 2025 6 2))))
   \<and> filter (\<lambda>a. start_key ex_events a = (10, 0, 0))
         (fst (get_events_on_day ex_events ex_three (ymd 2025 6 2))) = [1, 3]"
proof -
  have e: "events ex_three = [0, 1, 3]"
    by (simp add: ex_three_eq)
  have g: "fst (get_events_on_day ex_events ex_three (ymd 2025 6 2)) = [1, 3, 0]"
    by (simp add: ex_three_on_day)
  have f: "filter (\<lambda>a. start_key ex_events a = (10, 0, 0)) [1, 3, 0] = [1, 3]"
    by (simp add: ex_start_keys)
  show ?thesis
    using get_events_on_day_indexed [OF ex_three_reachable, of "ymd 2025 6 2"]
      ex_three_reachable e g f
    by simp
qed

theorem get_free_time_slots_empty_day_witness:
  "fst (get_events_on_day ex_events ex_two (ymd 2025 6 3)) = []
   \<and> fst (get_free_time_slots ex_events ex_two (ymd 2025 6 3) 1000) = Inr [range_hm 9 0 21 0]"
proof -
  have "fst (get_events_on_day ex_events ex_two (ymd 2025 6 3)) = []"
    by (simp add: get_events_on_day_def day_bucket_def ex_two_eq ymd_eq)
  then show ?thesis
    using get_free_time_slots_empty_day [of ex_events ex_two "ymd 2025 6 3" 1000] by simp
qed

lemma ex_two_day_ranges:
  "day_ranges ex_events ex_two (ymd 2025 6 2) = [(hm 10 0, hm 11 0), (hm 14 0, hm 15 0)]"
  by (simp add: day_ranges_def ex_two_on_day ex_ranges range_hm_def)

lemma ex_two_valid:
  "\<forall>a \<in> set (fst (get_events_on_day ex_events ex_two (ymd 2025 6 2))).
      valid_Time (start_time (time_range (obj ex_events a)))
      \<and> valid_Time (end_time (time_range (obj ex_events a)))"
  by (simp add: ex_two_on_day ex_ranges range_hm_def hm_def valid_Time_def Time_init_def)

theorem get_free_time_slots_walk_witness:
  "fst (get_events_on_day ex_events ex_two (ymd 2025 6 2)) = [1, 0]
   \<and> day_ranges ex_events ex_two (ymd 2025 6 2) = [(hm 10 0, hm 11 0), (hm 14 0, hm 15 0)]
   \<and> fst (get_free_time_slots ex_events ex_two (ymd 2025 6 2) 60)
       = Inr [range_hm 9 0 10 0, range_hm 11 0 14 0, range_hm 15 0 21 0]
   \<and> fst (get_free_time_slots ex_events ex_two (ymd 2025 6 2) 200) = Inr [range_hm 15 0 21 0]"
proof -
  have n: "fst (get_events_on_day ex_events ex_two (ymd 2025 6 2)) = [1, 0]"
    by (simp add: ex_two_on_day)
  then have ne: "fst (get_events_on_day ex_events ex_two (ymd 2025 6 2)) \<noteq> []"
    by simp
  have m: "1 \<le> (60::int)" "1 \<le> (200::int)"
    by simp_all
  have a: "fst (get_free_time_slots ex_events ex_two (ymd 2025 6 2) 60)
       = Inr [range_hm 9 0 10 0, range_hm 11 0 14 0, range_hm 15 0 21 0]"
    using get_free_time_slots_walk [OF m(1) ne ex_two_valid] ex_two_day_ranges by blast
  have b: "fst (get_free_time_slots ex_events ex_two (ymd 2025 6 2) 200)
       = Inr [range_hm 15 0 21 0]"
    using get_free_time_slots_walk [OF m(2) ne ex_two_valid] ex_two_day_ranges by blast
  show ?thesis
    using n ex_two_day_ranges a b by blast
qed

lemma ex_two_loop_200:
  "free_slots_loop ex_events 200 (fst (get_events_on_day ex_events ex_two (ymd 2025 6 2)))
     ([], hm 9 0) = Inr ([], hm 15 0)"
  by (simp add: ex_two_on_day ex_ranges difference_in_minutes_def to_minutes_def range_hm_def hm_def
      is_after_def time_obj_def)

lemma ex_touching_raises:
  "fst (get_free_time_slots ex_events ex_touching (ymd 2025 6 4) 0)
     = Inl (ValueError ''End time must be after start time'')"
proof -
  have g: "get_events_on_day ex_events ex_touching (ymd 2025 6 4) = ([4, 5], ex_touching)"
    by (simp add: get_events_on_day_def day_bucket_def ex_touching_eq ex_start_keys)
  then have ne: "fst (get_events_on_day ex_events ex_touching (ymd 2025 6 4)) \<noteq> []"
    by simp
  have l: "free_slots_loop ex_events 0
             (fst (get_events_on_day ex_events ex_touching (ymd 2025 6 4))) ([], hm 9 0)
          = Inl (ValueError ''End time must be after start time'')"
    by (simp add: g ex_ranges difference_in_minutes_def to_minutes_def range_hm_def hm_def
        is_after_def is_before_def time_obj_def TimeRange_init_def)
  have "fst (get_free_time_slots ex_events ex_touching (ymd 2025 6 4) 0)
          = finish 0 (Inl (ValueError ''End time must be after start time''))"
    by (simp only: get_free_time_slots_finish [OF ne] l)
  then show ?thesis
    by (simp add: finish_def)
qed

text \<open>
  With m = 200 the walk over the events 10:00-11:00 and 14:00-15:00 keeps the gap
  15:00-21:00 (360 minutes) and drops 11:00-14:00 (180 minutes). With m = 0, on a day
  whose two events 10:00:00-10:00:30 and 10:00:00-10:00:00 do not overlap, the gap from
  the cursor 10:00:30 to the second start 10:00:00 is 0 minutes long, and the
  \<^verbatim>\<open>TimeRange\<close> constructor raises.
\<close>

theorem get_free_time_slots_200_only_last:
  "day_ranges ex_events ex_two (ymd 2025 6 2) = [(hm 10 0, hm 11 0), (hm 14 0, hm 15 0)]
   \<and> fst (get_free_time_slots ex_events ex_two (ymd 2025 6 2) 200) = Inr [range_hm 15 0 21 0]
   \<and> fst (get_free_time_slots ex_events ex_two (ymd 2025 6 2) 200) \<noteq> Inr [range_hm 11 0 14 0]
   \<and> fst (get_events_on_day ex_events ex_touching (ymd 2025 6 4)) = [4, 5]
   \<and> \<not> overlaps_with (time_range (obj ex_events 4)) (time_range (obj ex_events 5))
   \<and> fst (get_free_time_slots ex_events ex_touching (ymd 2025 6 4) 0)
       = Inl (ValueError ''End time must be after start time'')"
proof -
  have ne: "fst (get_events_on_day ex_events ex_two (ymd 2025 6 2)) \<noteq> []"
    by (simp add: ex_two_on_day)
  have "fst (get_free_time_slots ex_events ex_two (ymd 2025 6 2) 200)
               = finish 200 (Inr ([], hm 15 0))"
    by (simp only: get_free_time_slots_finish [OF ne] ex_two_loop_200)
  also have "\<dots> = Inr [range_hm 15 0 21 0]"
    by (simp add: finish_def difference_in_minutes_def to_minutes_def TimeRange_init_def
        is_before_def time_obj_def hm_def range_hm_def)
  finally have a: "fst (get_free_time_slots ex_events ex_two (ymd 2025 6 2) 200)
               = Inr [range_hm 15 0 21 0]" .
  have b: "range_hm 15 0 21 0 \<noteq> range_hm 11 0 14 0"
    by (simp add: range_hm_def hm_def)
  have c: "fst (get_events_on_day ex_events ex_touching (ymd 2025 6 4)) = [4, 5]"
    by (simp add: get_events_on_day_def day_bucket_def ex_touching_eq ex_start_keys)
  have d: "\<not> overlaps_with (time_range (obj ex_events 4)) (time_range (obj ex_events 5))"
    by (simp add: ex_ranges overlaps_with_def is_before_def Time_eq_def time_obj_def
        range_hm_def hm_def)
  show ?thesis
    using a b c d ex_two_day_ranges ex_touching_raises by simp
qed

theorem get_statistics_empty_witness:
  "events (Schedule_init ''My Schedule'') = []
   \<and> get_statistics ex_events (ymd 2025 6 1) (Schedule_init ''My Schedule'')
       = Inr \<lparr>total_events = 0, upcoming_events = 0, completed_events = 0,
              cancelled_events = 0, events_by_type = None, total_scheduled_minutes = None,
              average_event_duration = None\<rparr>
   \<and> (\<exists>st. get_statistics ex_events (ymd 2025 6 1) ex_two = Inr st
          \<and> total_events st = 2 \<and> average_event_duration st = Some 60)"
proof -
  have e: "events (Schedule_init ''My Schedule'') = []"
    by (simp add: Schedule_init_def)
  have d: "sum_list (map (\<lambda>e. get_duration_minutes (obj ex_events e)) (events ex_two)) = 120"
    by (simp add: ex_two_eq get_duration_minutes_def ex_ranges range_hm_def)
  have "\<exists>st. get_statistics ex_events (ymd 2025 6 1) ex_two = Inr st
          \<and> total_events st = 2 \<and> average_event_duration st = Some 60"
    using d by (simp add: get_statistics_def true_div_def) (simp add: ex_two_eq)
  then show ?thesis
    using get_statistics_empty [of "Schedule_init ''My Schedule''" ex_events "ymd 2025 6 1"] e
    by (auto simp: get_statistics_def)
qed

end
